theory Spec2Isabelle
  imports Complex_Main "HOL-Library.Log_Nat"
begin

section \<open>Weather-code catalog\<close>

text \<open>
  The catalog and the analysis of the weather history live in
  \<^verbatim>\<open>src/lib/geolocation.ts\<close>. Strings are byte lists; the two letters of
  the Slovenian descriptions outside ASCII are written as their UTF-8 bytes, which keeps
  equality of strings as it is in the source.
\<close>

definition c_caron :: string where
  "c_caron = [CHR 0xC4, CHR 0x8D]"

definition z_caron :: string where
  "z_caron = [CHR 0xC5, CHR 0xBE]"

text \<open>
  \<^verbatim>\<open>type WeatherIcon = string | { day: string; night: string }\<close>
\<close>

datatype WeatherIcon = Single string | DayNight (day: string) (night: string)

record WeatherEntry =
  description :: string
  icon :: WeatherIcon

text \<open>
  \<^verbatim>\<open>WEATHER_CODES: Record<number, { description; icon }>\<close>, the object literal of
  28 rows. A property read \<^verbatim>\<open>WEATHER_CODES[code]\<close> with an integer code finds
  a row or yields \<^verbatim>\<open>undefined\<close> (\<open>None\<close>).
\<close>

definition WEATHER_CODES :: "int \<rightharpoonup> WeatherEntry" where
  "WEATHER_CODES = map_of [
    (0, \<lparr>description = ''Jasno'',
         icon = DayNight ''clear-day'' ''clear-night''\<rparr>),
    (1, \<lparr>description = ''Prete'' @ z_caron @ ''no jasno'',
         icon = DayNight ''clear-day'' ''clear-night''\<rparr>),
    (2, \<lparr>description = ''Delno obla'' @ c_caron @ ''no'',
         icon = DayNight ''cloudy-1-day'' ''cloudy-1-night''\<rparr>),
    (3, \<lparr>description = ''Obla'' @ c_caron @ ''no'',
         icon = DayNight ''cloudy-3-day'' ''cloudy-3-night''\<rparr>),
    (45, \<lparr>description = ''Megla'',
         icon = DayNight ''fog-day'' ''fog-night''\<rparr>),
    (48, \<lparr>description = ''Megla z ivjem'',
         icon = DayNight ''fog-day'' ''fog-night''\<rparr>),
    (51, \<lparr>description = ''Rahlo rosenje'',
         icon = DayNight ''rainy-1-day'' ''rainy-1-night''\<rparr>),
    (53, \<lparr>description = ''Zmerno rosenje'',
         icon = DayNight ''rainy-2-day'' ''rainy-2-night''\<rparr>),
    (55, \<lparr>description = ''Gosto rosenje'',
         icon = DayNight ''rainy-3-day'' ''rainy-3-night''\<rparr>),
    (56, \<lparr>description = ''Rahlo ledeno rosenje'',
         icon = Single ''rain-and-sleet-mix''\<rparr>),
    (57, \<lparr>description = ''Gosto ledeno rosenje'',
         icon = Single ''rain-and-sleet-mix''\<rparr>),
    (61, \<lparr>description = ''Rahlo de'' @ z_caron @ ''evje'',
         icon = DayNight ''rainy-1-day'' ''rainy-1-night''\<rparr>),
    (63, \<lparr>description = ''Zmerno de'' @ z_caron @ ''evje'',
         icon = DayNight ''rainy-2-day'' ''rainy-2-night''\<rparr>),
    (65, \<lparr>description = ''Mo'' @ c_caron @ ''no de'' @ z_caron @ ''evje'',
         icon = DayNight ''rainy-3-day'' ''rainy-3-night''\<rparr>),
    (66, \<lparr>description = ''Rahlo ledeno de'' @ z_caron @ ''evje'',
         icon = Single ''rain-and-sleet-mix''\<rparr>),
    (67, \<lparr>description = ''Mo'' @ c_caron @ ''no ledeno de'' @ z_caron @ ''evje'',
         icon = Single ''rain-and-sleet-mix''\<rparr>),
    (71, \<lparr>description = ''Rahlo sne'' @ z_caron @ ''enje'',
         icon = DayNight ''snowy-1-day'' ''snowy-1-night''\<rparr>),
    (73, \<lparr>description = ''Zmerno sne'' @ z_caron @ ''enje'',
         icon = DayNight ''snowy-2-day'' ''snowy-2-night''\<rparr>),
    (75, \<lparr>description = ''Mo'' @ c_caron @ ''no sne'' @ z_caron @ ''enje'',
         icon = DayNight ''snowy-3-day'' ''snowy-3-night''\<rparr>),
    (77, \<lparr>description = ''Sne'' @ z_caron @ ''na zrna'',
         icon = DayNight ''snowy-1-day'' ''snowy-1-night''\<rparr>),
    (80, \<lparr>description = ''Rahle de'' @ z_caron @ ''ne plohe'',
         icon = DayNight ''rainy-1-day'' ''rainy-1-night''\<rparr>),
    (81, \<lparr>description = ''Zmerne de'' @ z_caron @ ''ne plohe'',
         icon = DayNight ''rainy-2-day'' ''rainy-2-night''\<rparr>),
    (82, \<lparr>description = ''Mo'' @ c_caron @ ''ne de'' @ z_caron @ ''ne plohe'',
         icon = DayNight ''rainy-3-day'' ''rainy-3-night''\<rparr>),
    (85, \<lparr>description = ''Rahle sne'' @ z_caron @ ''ne plohe'',
         icon = DayNight ''snowy-1-day'' ''snowy-1-night''\<rparr>),
    (86, \<lparr>description = ''Mo'' @ c_caron @ ''ne sne'' @ z_caron @ ''ne plohe'',
         icon = DayNight ''snowy-3-day'' ''snowy-3-night''\<rparr>),
    (95, \<lparr>description = ''Nevihta'',
         icon = Single ''thunderstorms''\<rparr>),
    (96, \<lparr>description = ''Nevihta z rahlo to'' @ c_caron @ ''o'',
         icon = DayNight ''scattered-thunderstorms-day'' ''scattered-thunderstorms-night''\<rparr>),
    (99, \<lparr>description = ''Nevihta z mo'' @ c_caron @ ''no to'' @ c_caron @ ''o'',
         icon = Single ''severe-thunderstorm''\<rparr>)]"

datatype js_error = TypeError

text \<open>
  \<^verbatim>\<open>const weather = WEATHER_CODES[weatherCode] || WEATHER_CODES[0];\<close>
  \<^verbatim>\<open>const icon = weather.icon;\<close>
  \<^verbatim>\<open>if (typeof icon === 'object') return isDay ? icon.day : icon.night;\<close>
  \<^verbatim>\<open>return icon;\<close>
  The parameter \<^verbatim>\<open>isDay\<close> defaults to true; the model takes it explicitly.
  A row is an object, hence truthy. Reading \<^verbatim>\<open>.icon\<close> of
  \<^verbatim>\<open>undefined\<close> would throw a TypeError; the model keeps that branch.
\<close>

definition getWeatherIcon :: "int \<Rightarrow> bool \<Rightarrow> js_error + string" where
  "getWeatherIcon weatherCode isDay =
     (case (case WEATHER_CODES weatherCode of Some w \<Rightarrow> Some w | None \<Rightarrow> WEATHER_CODES 0) of
        None \<Rightarrow> Inl TypeError
      | Some weather \<Rightarrow>
          (case icon weather of
             DayNight d n \<Rightarrow> Inr (if isDay then d else n)
           | Single s \<Rightarrow> Inr s))"

text \<open>
  \<^verbatim>\<open>return WEATHER_CODES[weatherCode]?.description || 'Neznano';\<close>
  The empty string is falsy, so an empty description would fall back as well.
\<close>

definition getWeatherDescription :: "int \<Rightarrow> string" where
  "getWeatherDescription weatherCode =
     (case WEATHER_CODES weatherCode of
        None \<Rightarrow> ''Neznano''
      | Some w \<Rightarrow> (if description w = [] then ''Neznano'' else description w))"

section \<open>Numbers\<close>

text \<open>
  A JavaScript number is an IEEE-754 binary64 value. A finite one is modelled by the
  rational it denotes, beside the three special values \<^verbatim>\<open>Infinity\<close>,
  \<^verbatim>\<open>-Infinity\<close> and \<^verbatim>\<open>NaN\<close>. The two zeros are one value
  (\<^verbatim>\<open>===\<close> does not tell them apart either).
\<close>

datatype jsnum = Fin rat | PInf | NInf | NaN

text \<open>
  Rounding to binary64, as every arithmetic operation and every decimal literal does
  (round to nearest, ties to even). For \<open>x > 0\<close>, \<open>floor_log2 x\<close> is the exponent
  \<open>e\<close> with \<open>2 powi e \<le> x < 2 powi (e + 1)\<close>, found from the bit lengths of the
  numerator and the denominator. The numbers of that binade are the multiples of
  \<open>2 powi (e - 52)\<close> (53 significant bits); below \<open>2 powi (- 1022)\<close> the spacing stays
  \<open>2 powi (- 1074)\<close> (subnormal numbers). A result of magnitude \<open>2 powi 1024\<close> or
  more is an infinity.
\<close>

definition floor_log2 :: "rat \<Rightarrow> int" where
  "floor_log2 x =
     (let d = bitlen (fst (quotient_of x)) - bitlen (snd (quotient_of x))
      in if 2 powi d \<le> x then d else d - 1)"

definition round_ties_even :: "rat \<Rightarrow> int" where
  "round_ties_even r =
     (if r - of_int \<lfloor>r\<rfloor> < 1 / 2 then \<lfloor>r\<rfloor>
      else if 1 / 2 < r - of_int \<lfloor>r\<rfloor> then \<lfloor>r\<rfloor> + 1
      else if even \<lfloor>r\<rfloor> then \<lfloor>r\<rfloor> else \<lfloor>r\<rfloor> + 1)"

definition fl64 :: "rat \<Rightarrow> jsnum" where
  "fl64 x =
     (if x = 0 then Fin 0
      else
        let t = max (floor_log2 \<bar>x\<bar>) (- 1022) - 52;
            y = of_int (round_ties_even (x / 2 powi t)) * 2 powi t
        in if 2 powi 1024 \<le> y then PInf
           else if y \<le> - (2 powi 1024) then NInf
           else Fin y)"

text \<open>The relational operator \<^verbatim>\<open><\<close>; every comparison with NaN is false.\<close>

fun js_less :: "jsnum \<Rightarrow> jsnum \<Rightarrow> bool" where
  "js_less NaN _ = False"
| "js_less _ NaN = False"
| "js_less (Fin a) (Fin b) = (a < b)"
| "js_less (Fin a) PInf = True"
| "js_less (Fin a) NInf = False"
| "js_less PInf _ = False"
| "js_less NInf NInf = False"
| "js_less NInf _ = True"

text \<open>The operator \<^verbatim>\<open>+\<close> on numbers: the exact sum, rounded to binary64.\<close>

fun js_add :: "jsnum \<Rightarrow> jsnum \<Rightarrow> jsnum" where
  "js_add NaN _ = NaN"
| "js_add _ NaN = NaN"
| "js_add (Fin a) (Fin b) = fl64 (a + b)"
| "js_add (Fin a) PInf = PInf"
| "js_add (Fin a) NInf = NInf"
| "js_add PInf NInf = NaN"
| "js_add PInf _ = PInf"
| "js_add NInf PInf = NaN"
| "js_add NInf _ = NInf"

text \<open>
  The operator \<^verbatim>\<open>*\<close>: the exact product, rounded to binary64; an infinity
  times zero is NaN.
\<close>

fun js_sign :: "jsnum \<Rightarrow> int" where
  "js_sign (Fin a) = (if a < 0 then - 1 else if a = 0 then 0 else 1)"
| "js_sign PInf = 1"
| "js_sign NInf = - 1"
| "js_sign NaN = 0"

fun js_mul :: "jsnum \<Rightarrow> jsnum \<Rightarrow> jsnum" where
  "js_mul NaN _ = NaN"
| "js_mul _ NaN = NaN"
| "js_mul (Fin a) (Fin b) = fl64 (a * b)"
| "js_mul x y =
     (if js_sign x * js_sign y = 0 then NaN
      else if js_sign x * js_sign y > 0 then PInf else NInf)"

text \<open>
  The operator \<^verbatim>\<open>/\<close>: the exact quotient, rounded to binary64. The divisors of
  the analysis are an array length and the literal 10, so a zero divisor is the positive
  zero: \<^verbatim>\<open>0 / 0\<close> is NaN and a non-zero number over zero is the infinity of the
  dividend's sign.
\<close>

fun js_div :: "jsnum \<Rightarrow> jsnum \<Rightarrow> jsnum" where
  "js_div NaN _ = NaN"
| "js_div _ NaN = NaN"
| "js_div (Fin a) (Fin b) =
     (if b = 0 then (if a = 0 then NaN else if a > 0 then PInf else NInf)
      else fl64 (a / b))"
| "js_div (Fin a) _ = Fin 0"
| "js_div PInf (Fin b) = (if b < 0 then NInf else PInf)"
| "js_div NInf (Fin b) = (if b < 0 then PInf else NInf)"
| "js_div _ _ = NaN"

text \<open>
  \<^verbatim>\<open>Math.round\<close>: the integer closest to the argument; of two integers
  equally close, the one closer to \<^verbatim>\<open>+Infinity\<close>. The result is exact (a
  binary64 value with a fractional part is below \<open>2 powi 52\<close>). NaN and the infinities are
  returned as they are.
\<close>

definition round_ties_up :: "rat \<Rightarrow> int" where
  "round_ties_up x =
     (if x - of_int \<lfloor>x\<rfloor> < of_int \<lfloor>x\<rfloor> + 1 - x then \<lfloor>x\<rfloor> else \<lfloor>x\<rfloor> + 1)"

fun Math_round :: "jsnum \<Rightarrow> jsnum" where
  "Math_round (Fin x) = Fin (of_int (round_ties_up x))"
| "Math_round v = v"

text \<open>
  \<^verbatim>\<open>Math.max(...values)\<close>: NaN if any argument is NaN, else the running
  highest value, which starts at \<^verbatim>\<open>-Infinity\<close>. \<^verbatim>\<open>Math.min\<close> is its
  mirror image, starting at \<^verbatim>\<open>+Infinity\<close>.
\<close>

definition max_step :: "jsnum \<Rightarrow> jsnum \<Rightarrow> jsnum" where
  "max_step highest number = (if js_less highest number then number else highest)"

definition Math_max :: "jsnum list \<Rightarrow> jsnum" where
  "Math_max values = (if NaN \<in> set values then NaN else foldl max_step NInf values)"

definition min_step :: "jsnum \<Rightarrow> jsnum \<Rightarrow> jsnum" where
  "min_step lowest number = (if js_less number lowest then number else lowest)"

definition Math_min :: "jsnum list \<Rightarrow> jsnum" where
  "Math_min values = (if NaN \<in> set values then NaN else foldl min_step PInf values)"

text \<open>\<^verbatim>\<open>values.reduce((a, b) => a + b, 0)\<close>\<close>

definition reduce_sum :: "jsnum list \<Rightarrow> jsnum" where
  "reduce_sum values = foldl js_add (Fin 0) values"

section \<open>Analysis of the weather history\<close>

text \<open>
  Of the daily arrays of \<^verbatim>\<open>HistoricalWeatherData\<close> the analysis reads four;
  \<^verbatim>\<open>time\<close> is kept beside them, the other arrays are left out. The field
  \<^verbatim>\<open>daily\<close> of the response is optional.
\<close>

record DailyData =
  time :: "string list"
  weather_code :: "int list"
  temperature_2m_max :: "jsnum list"
  temperature_2m_min :: "jsnum list"
  precipitation_sum :: "jsnum list"

record HistoricalWeatherResponse =
  daily :: "DailyData option"

record Extremes =
  hottestDay :: jsnum
  coldestDay :: jsnum
  wettestDay :: jsnum

record Averages =
  avgMaxTemp :: jsnum
  avgMinTemp :: jsnum
  totalPrecipitation :: jsnum

record WeatherPatterns =
  mostCommonWeather :: string
  mostCommonWeatherDays :: nat
  totalDays :: nat

record AnalysisSummary =
  extremes :: Extremes
  averages :: Averages
  weatherPatterns :: WeatherPatterns

text \<open>
  \<^verbatim>\<open>weatherTypeCounts\<close> is an object used as a dictionary from descriptions to
  counts. Its own string keys are enumerated in the order of their creation (none of the
  descriptions is an array index, see \<open>description_starts_uppercase\<close>), so it is an
  association list: assigning to an existing key keeps the key's place, a new key goes
  to the end.
\<close>

type_synonym counts = "(string \<times> nat) list"

fun obj_set :: "counts \<Rightarrow> string \<Rightarrow> nat \<Rightarrow> counts" where
  "obj_set [] k v = [(k, v)]"
| "obj_set ((k', v') # kvs) k v =
     (if k' = k then (k', v) # kvs else (k', v') # obj_set kvs k v)"

text \<open>
  The callback of \<^verbatim>\<open>weatherCodes.reduce\<close>:
  \<^verbatim>\<open>acc[description] = (acc[description] || 0) + 1\<close>
\<close>

definition count_step :: "counts \<Rightarrow> int \<Rightarrow> counts" where
  "count_step acc code =
     (let description = getWeatherDescription code
      in obj_set acc description
           ((case map_of acc description of None \<Rightarrow> 0 | Some c \<Rightarrow> c) + 1))"

definition weatherTypeCounts :: "int list \<Rightarrow> counts" where
  "weatherTypeCounts weatherCodes = foldl count_step [] weatherCodes"

text \<open>
  \<^verbatim>\<open>Object.entries(weatherTypeCounts).sort(([,a], [,b]) => b - a)[0]\<close>
  \<^verbatim>\<open>Array.prototype.sort\<close> is a stable sort by the comparator: an entry goes
  before another one when the comparator is negative, and entries that compare equal
  keep their order. Here that is an insertion sort, each entry inserted in front of
  the sorted entries that followed it.
\<close>

definition by_count_desc :: "string \<times> nat \<Rightarrow> string \<times> nat \<Rightarrow> int" where
  "by_count_desc x y = int (snd y) - int (snd x)"

fun insert_sorted :: "('a \<Rightarrow> 'a \<Rightarrow> int) \<Rightarrow> 'a \<Rightarrow> 'a list \<Rightarrow> 'a list" where
  "insert_sorted cmp x [] = [x]"
| "insert_sorted cmp x (y # ys) =
     (if cmp x y \<le> 0 then x # y # ys else y # insert_sorted cmp x ys)"

definition stable_sort :: "('a \<Rightarrow> 'a \<Rightarrow> int) \<Rightarrow> 'a list \<Rightarrow> 'a list" where
  "stable_sort cmp xs = foldr (insert_sorted cmp) xs []"

definition first_entry :: "'a list \<Rightarrow> 'a option" where
  "first_entry xs = (case xs of [] \<Rightarrow> None | x # _ \<Rightarrow> Some x)"

definition analyzeWeatherHistory :: "HistoricalWeatherResponse \<Rightarrow> AnalysisSummary option" where
  "analyzeWeatherHistory historicalData =
     (case daily historicalData of
        None \<Rightarrow> None
      | Some d \<Rightarrow>
          (let maxTemps = temperature_2m_max d;
               minTemps = temperature_2m_min d;
               precipitation = precipitation_sum d;
               weatherCodes = weather_code d;
               hottest = Math_max maxTemps;
               coldest = Math_min minTemps;
               wettest = Math_max precipitation;
               avgMax = js_div (reduce_sum maxTemps) (Fin (of_nat (length maxTemps)));
               avgMin = js_div (reduce_sum minTemps) (Fin (of_nat (length minTemps)));
               total = reduce_sum precipitation;
               mostCommon = first_entry (stable_sort by_count_desc (weatherTypeCounts weatherCodes))
           in Some \<lparr>
                extremes = \<lparr>
                  hottestDay = Math_round hottest,
                  coldestDay = Math_round coldest,
                  wettestDay = js_div (Math_round (js_mul wettest (Fin 10))) (Fin 10)\<rparr>,
                averages = \<lparr>
                  avgMaxTemp = Math_round avgMax,
                  avgMinTemp = Math_round avgMin,
                  totalPrecipitation = js_div (Math_round (js_mul total (Fin 10))) (Fin 10)\<rparr>,
                weatherPatterns = \<lparr>
                  mostCommonWeather = (case mostCommon of Some e \<Rightarrow> fst e | None \<Rightarrow> ''Neznano''),
                  mostCommonWeatherDays = (case mostCommon of Some e \<Rightarrow> snd e | None \<Rightarrow> 0),
                  totalDays = length weatherCodes\<rparr>\<rparr>))"

section \<open>Specification-side notions\<close>

text \<open>
  The keys of a list in the order of their first occurrence: the order in which a scan
  by ascending index meets each distinct description for the first time.
\<close>

fun first_occurrences :: "'a list \<Rightarrow> 'a list" where
  "first_occurrences [] = []"
| "first_occurrences (x # xs) = x # filter (\<lambda>y. y \<noteq> x) (first_occurrences xs)"

text \<open>
  Rounding half away from zero, as the specification words it: the magnitude is
  rounded half up and the sign is put back.
\<close>

definition round_half_away_from_zero :: "rat \<Rightarrow> int" where
  "round_half_away_from_zero x = (if x < 0 then - 1 else 1) * \<lfloor>\<bar>x\<bar> + 1 / 2\<rfloor>"


text \<open>
  The sum and the mean of a list of numbers as binary64 arithmetic computes them: the
  values are added from left to right, starting from 0, and the sum is divided by the
  number of values; every addition and the division round to binary64.
\<close>

definition binary64_sum :: "rat list \<Rightarrow> jsnum" where
  "binary64_sum xs = foldl (\<lambda>acc x. js_add acc (Fin x)) (Fin 0) xs"

definition binary64_mean :: "rat list \<Rightarrow> jsnum" where
  "binary64_mean xs = js_div (binary64_sum xs) (Fin (of_nat (length xs)))"

section \<open>Rounding to binary64\<close>

lemma int_bitlen_powi:
  fixes p :: int
  assumes "0 < p"
  shows "(2::rat) powi (bitlen p - 1) \<le> of_int p \<and> of_int p < (2::rat) powi (bitlen p)"
proof -
  from bitlen_bounds [OF assms]
  have b: "2 ^ nat (bitlen p - 1) \<le> p" "p < 2 ^ nat (bitlen p)" by simp_all
  have pos: "1 \<le> bitlen p" using assms bitlen_eq_zero_iff [of p] bitlen_nonneg [of p] by (smt (verit))
  have "(2::rat) powi (bitlen p - 1) = of_int (2 ^ nat (bitlen p - 1))"
    using pos by (simp add: power_int_def)
  moreover have "(2::rat) powi (bitlen p) = of_int (2 ^ nat (bitlen p))"
    using pos by (simp add: power_int_def)
  ultimately show ?thesis using b by (metis of_int_le_iff of_int_less_iff)
qed

lemma floor_log2_bounds:
  assumes "0 < x"
  shows "2 powi (floor_log2 x) \<le> x \<and> x < 2 powi (floor_log2 x + 1)"
proof -
  obtain p q where pq: "quotient_of x = (p, q)" by (cases "quotient_of x")
  have q: "0 < q" using pq quotient_of_denom_pos by blast
  have x: "x = of_int p / of_int q" using pq by (rule quotient_of_div)
  have p: "0 < p" using assms x q by (simp add: zero_less_divide_iff)
  let ?d = "bitlen p - bitlen q"
  note bp = int_bitlen_powi [OF p] and bq = int_bitlen_powi [OF q]
  have qr: "(0::rat) < of_int q" using q by simp
  have up: "x < 2 powi (?d + 1)"
  proof -
    have "of_int p < (2::rat) powi (?d + 1) * 2 powi (bitlen q - 1)"
      using bp by (simp add: power_int_add [symmetric])
    also have "\<dots> \<le> 2 powi (?d + 1) * of_int q"
      using bq by (intro mult_left_mono) simp_all
    finally show ?thesis using qr by (simp add: x pos_divide_less_eq)
  qed
  have low: "2 powi (?d - 1) \<le> x"
  proof -
    have "(2::rat) powi (?d - 1) * of_int q \<le> 2 powi (?d - 1) * 2 powi (bitlen q)"
      using bq by (intro mult_left_mono) simp_all
    also have "\<dots> = 2 powi (bitlen p - 1)" by (simp add: power_int_add [symmetric])
    also have "\<dots> \<le> of_int p" using bp by simp
    finally show ?thesis using qr by (simp add: x pos_le_divide_eq)
  qed
  show ?thesis
  proof (cases "2 powi ?d \<le> x")
    case True
    then have "floor_log2 x = ?d" by (simp add: floor_log2_def pq)
    then show ?thesis using True up by simp
  next
    case False
    then have "floor_log2 x = ?d - 1" by (simp add: floor_log2_def pq)
    then show ?thesis using False low by simp
  qed
qed

lemma floor_log2_unique:
  assumes "2 powi e \<le> x" and "x < 2 powi (e + 1)"
  shows "floor_log2 x = e"
proof -
  have "(0::rat) < 2 powi e" by simp
  then have pos: "0 < x" using assms(1) by linarith
  from floor_log2_bounds [OF pos] have b: "2 powi (floor_log2 x) \<le> x" "x < 2 powi (floor_log2 x + 1)"
    by simp_all
  have "(2::rat) powi e < 2 powi (floor_log2 x + 1)" using assms(1) b(2) by linarith
  then have "e < floor_log2 x + 1"
    using power_int_increasing [of "floor_log2 x + 1" e "2::rat"] by (cases "e < floor_log2 x + 1") auto
  moreover have "(2::rat) powi (floor_log2 x) < 2 powi (e + 1)" using assms(2) b(1) by linarith
  then have "floor_log2 x < e + 1"
    using power_int_increasing [of "e + 1" "floor_log2 x" "2::rat"] by (cases "floor_log2 x < e + 1") auto
  ultimately show ?thesis by simp
qed

lemma round_ties_even_of_int [simp]: "round_ties_even (of_int n) = n"
  by (simp add: round_ties_even_def)

lemma round_ties_even_ge: "of_int N \<le> r \<Longrightarrow> N \<le> round_ties_even r"
proof -
  assume "of_int N \<le> r"
  then have "N \<le> \<lfloor>r\<rfloor>" by (simp add: le_floor_iff)
  then show ?thesis by (simp add: round_ties_even_def)
qed

lemma round_ties_even_le: "r \<le> of_int N \<Longrightarrow> round_ties_even r \<le> N"
proof -
  assume a: "r \<le> of_int N"
  show ?thesis
  proof (cases "r = of_int N")
    case True
    then show ?thesis by simp
  next
    case False
    then have "r < of_int N" using a by simp
    then have "\<lfloor>r\<rfloor> < N" by (simp add: floor_less_iff)
    then show ?thesis by (simp add: round_ties_even_def)
  qed
qed

lemma fl64_normal:
  assumes "2 powi e \<le> \<bar>x\<bar>" and "\<bar>x\<bar> < 2 powi (e + 1)" and "- 1022 \<le> e" and "e \<le> 1022"
  shows "fl64 x = Fin (of_int (round_ties_even (x / 2 powi (e - 52))) * 2 powi (e - 52))"
proof -
  have e: "floor_log2 \<bar>x\<bar> = e" using assms(1,2) by (rule floor_log2_unique)
  have nz: "x \<noteq> 0"
  proof
    assume "x = 0"
    then have "2 powi e \<le> (0::rat)" using assms(1) by simp
    moreover have "(0::rat) < 2 powi e" by (rule zero_less_power_int) simp
    ultimately show False by linarith
  qed
  let ?t = "e - 52"
  define y where "y = x / 2 powi ?t"
  define n where "n = round_ties_even y"
  have tpos: "(0::rat) < 2 powi ?t" by (rule zero_less_power_int) simp
  have "\<bar>y\<bar> = \<bar>x\<bar> / 2 powi ?t" using tpos by (simp add: y_def abs_divide)
  also have "\<dots> < 2 powi (e + 1) / 2 powi ?t"
    using assms(2) tpos by (rule divide_strict_right_mono)
  also have "\<dots> = 2 powi 53" by (simp add: power_int_diff [symmetric])
  finally have "\<bar>y\<bar> < 2 ^ 53" by simp
  then have "y \<le> of_int (2 ^ 53)" "of_int (- (2 ^ 53)) \<le> y" by simp_all
  then have "n \<le> 2 ^ 53" "- (2 ^ 53) \<le> n"
    unfolding n_def using round_ties_even_le round_ties_even_ge by blast+
  then have "\<bar>of_int n :: rat\<bar> \<le> 2 ^ 53" by (simp add: abs_le_iff)
  then have "\<bar>of_int n * 2 powi ?t :: rat\<bar> \<le> 2 ^ 53 * 2 powi ?t"
    using tpos by (simp add: abs_mult mult_right_mono)
  also have "\<dots> = 2 powi (e + 1)"
    using power_int_add [of "2::rat" 53 ?t] by (simp add: add.commute)
  also have "\<dots> \<le> 2 powi 1023" using assms(4) by (intro power_int_increasing) simp_all
  also have "\<dots> < 2 powi 1024" by (intro power_int_strict_increasing) simp_all
  finally have small: "\<bar>of_int n * 2 powi ?t :: rat\<bar> < 2 powi 1024" .
  then have "\<not> (2::rat) powi 1024 \<le> of_int n * 2 powi ?t"
    "\<not> of_int n * 2 powi ?t \<le> - ((2::rat) powi 1024)"
    by linarith+
  moreover have "max (floor_log2 \<bar>x\<bar>) (- 1022) - 52 = ?t" using e assms(3) by simp
  ultimately show ?thesis using nz
    unfolding fl64_def Let_def n_def y_def by (simp only: if_False)
qed

lemma floor_rat_numeral:
  "\<lfloor>numeral a / numeral b :: rat\<rfloor> = numeral a div numeral b"
  by (metis floor_divide_of_int_eq of_int_numeral)

lemma floor_rat_minus_numeral:
  "\<lfloor>- (numeral a / numeral b) :: rat\<rfloor> = - numeral a div numeral b"
  by (metis divide_minus_left floor_divide_of_int_eq of_int_neg_numeral of_int_numeral)

lemma fl64_zero [simp]: "fl64 0 = Fin 0"
  by (simp add: fl64_def)


lemma floor_log2_range:
  assumes "2 powi a \<le> x" and "x < 2 powi b"
  shows "a \<le> floor_log2 x \<and> floor_log2 x < b"
proof -
  have "(0::rat) < 2 powi a" by (rule zero_less_power_int) simp
  then have pos: "0 < x" using assms(1) by linarith
  from floor_log2_bounds [OF pos]
  have f: "2 powi (floor_log2 x) \<le> x" "x < 2 powi (floor_log2 x + 1)" by simp_all
  have "(2::rat) powi a < 2 powi (floor_log2 x + 1)" using assms(1) f(2) by linarith
  then have "a < floor_log2 x + 1"
    using power_int_increasing [of "floor_log2 x + 1" a "2::rat"]
    by (cases "a < floor_log2 x + 1") auto
  moreover have "(2::rat) powi (floor_log2 x) < 2 powi b" using assms(2) f(1) by linarith
  then have "floor_log2 x < b"
    using power_int_increasing [of b "floor_log2 x" "2::rat"]
    by (cases "floor_log2 x < b") auto
  ultimately show ?thesis by simp
qed

lemma fl64_of_int:
  assumes "\<bar>n\<bar> < 2 ^ 53"
  shows "fl64 (of_int n) = Fin (of_int n)"
proof (cases "n = 0")
  case True
  then show ?thesis by simp
next
  case False
  define x :: rat where "x = of_int n"
  define e where "e = floor_log2 \<bar>x\<bar>"
  have "1 \<le> \<bar>n\<bar>" using False by simp
  then have "(1::rat) \<le> of_int \<bar>n\<bar>" by (metis of_int_1_le_iff)
  then have lo: "2 powi 0 \<le> \<bar>x\<bar>" by (simp add: x_def)
  have "(of_int \<bar>n\<bar> :: rat) < of_int (2 ^ 53)" using assms by (metis of_int_less_iff)
  then have hi: "\<bar>x\<bar> < 2 powi 53" by (simp add: x_def)
  from floor_log2_range [OF lo hi] have e: "0 \<le> e" "e < 53" by (simp_all add: e_def)
  have pos: "0 < \<bar>x\<bar>" using lo by simp
  from floor_log2_bounds [OF pos] have b: "2 powi e \<le> \<bar>x\<bar>" "\<bar>x\<bar> < 2 powi (e + 1)"
    by (simp_all add: e_def)
  have n: "fl64 x = Fin (of_int (round_ties_even (x / 2 powi (e - 52))) * 2 powi (e - 52))"
    using b e by (intro fl64_normal) simp_all
  have "x / 2 powi (e - 52) = x * 2 powi (52 - e)"
    using power_int_minus [of "2::rat" "e - 52"] by (simp add: field_simps)
  also have "\<dots> = of_int (n * 2 ^ nat (52 - e))"
    using e by (simp add: x_def power_int_def)
  finally have q: "x / 2 powi (e - 52) = of_int (n * 2 ^ nat (52 - e))" .
  have "of_int (round_ties_even (x / 2 powi (e - 52))) * 2 powi (e - 52) = x"
    unfolding q round_ties_even_of_int unfolding q [symmetric] by simp
  then show ?thesis using n by (simp add: x_def)
qed

lemma foldl_js_add_int:
  "\<bar>a\<bar> + sum_list (map abs ns) < 2 ^ 53 \<Longrightarrow>
   foldl js_add (Fin (of_int a)) (map (\<lambda>n. Fin (of_int n)) ns) = Fin (of_int (a + sum_list ns))"
proof (induction ns arbitrary: a)
  case Nil
  show ?case by simp
next
  case (Cons n ns)
  have "\<bar>a + n\<bar> \<le> \<bar>a\<bar> + \<bar>n\<bar>" by simp
  moreover have "0 \<le> sum_list (map abs ns)" by (induction ns) simp_all
  ultimately have small: "\<bar>a + n\<bar> < 2 ^ 53" "\<bar>a + n\<bar> + sum_list (map abs ns) < 2 ^ 53"
    using Cons.prems by simp_all
  have "js_add (Fin (of_int a)) (Fin (of_int n)) = Fin (of_int (a + n))"
    using fl64_of_int [OF small(1)] by simp
  then show ?case using Cons.IH [OF small(2)] by (simp add: add.assoc)
qed

text \<open>
  Conditional rewrite rules that evaluate \<open>fl64\<close> at a concrete number: one instance of
  \<open>fl64_normal\<close> for each binade that occurs in the examples below.
\<close>

lemmas fl64_binades =
  fl64_normal [where e = "- 3"] fl64_normal [where e = "- 2"] fl64_normal [where e = "- 1"]
  fl64_normal [where e = 0] fl64_normal [where e = 1] fl64_normal [where e = 2]
  fl64_normal [where e = 3] fl64_normal [where e = 4] fl64_normal [where e = 5]
  fl64_normal [where e = 6]

lemmas fl64_evals =
  round_ties_even_def round_ties_up_def floor_rat_numeral floor_rat_minus_numeral

section \<open>Rounding to integers, extremes\<close>

lemma round_ties_up_eq_round: "round_ties_up x = round x"
proof -
  have fl: "of_int \<lfloor>x\<rfloor> \<le> x" "x < of_int \<lfloor>x\<rfloor> + 1" by linarith+
  show ?thesis
  proof (cases "x - of_int \<lfloor>x\<rfloor> < of_int \<lfloor>x\<rfloor> + 1 - x")
    case True
    have "round x = \<lfloor>x\<rfloor>"
    proof (rule round_unique)
      show "x - 1 / 2 < of_int \<lfloor>x\<rfloor>" using True by linarith
      show "of_int \<lfloor>x\<rfloor> \<le> x + 1 / 2" using fl by linarith
    qed
    with True show ?thesis by (simp add: round_ties_up_def)
  next
    case False
    have "round x = \<lfloor>x\<rfloor> + 1"
    proof (rule round_unique)
      show "x - 1 / 2 < of_int (\<lfloor>x\<rfloor> + 1)" using fl by simp
      show "of_int (\<lfloor>x\<rfloor> + 1) \<le> x + 1 / 2" using False by simp
    qed
    with False show ?thesis by (simp add: round_ties_up_def)
  qed
qed

lemma not_NaN_map_Fin: "NaN \<notin> set (map Fin xs)"
  by auto

lemma foldl_max_step_Fin: "foldl max_step (Fin a) (map Fin xs) = Fin (Max (insert a (set xs)))"
proof (induction xs arbitrary: a)
  case Nil
  show ?case by simp
next
  case (Cons x xs)
  have "max_step (Fin a) (Fin x) = Fin (max a x)"
    by (simp add: max_step_def max_def)
  moreover have "Max (insert (max a x) (set xs)) = Max (insert a (set (x # xs)))"
    by (cases "set xs = {}") (simp_all add: max.assoc max.commute)
  ultimately show ?case using Cons.IH [of "max a x"] by simp
qed

lemma Math_max_Fin: "xs \<noteq> [] \<Longrightarrow> Math_max (map Fin xs) = Fin (Max (set xs))"
proof (cases xs)
  case Nil
  then show "xs \<noteq> [] \<Longrightarrow> ?thesis" by simp
next
  case (Cons x xs')
  have "max_step NInf (Fin x) = Fin x" by (simp add: max_step_def)
  then have "foldl max_step NInf (map Fin xs) = Fin (Max (insert x (set xs')))"
    using foldl_max_step_Fin [of x xs'] Cons by simp
  then show ?thesis using Cons not_NaN_map_Fin [of xs] by (simp add: Math_max_def)
qed

lemma foldl_min_step_Fin: "foldl min_step (Fin a) (map Fin xs) = Fin (Min (insert a (set xs)))"
proof (induction xs arbitrary: a)
  case Nil
  show ?case by simp
next
  case (Cons x xs)
  have "min_step (Fin a) (Fin x) = Fin (min a x)"
    by (simp add: min_step_def min_def)
  moreover have "Min (insert (min a x) (set xs)) = Min (insert a (set (x # xs)))"
    by (cases "set xs = {}") (simp_all add: min.assoc min.commute)
  ultimately show ?case using Cons.IH [of "min a x"] by simp
qed

lemma Math_min_Fin: "xs \<noteq> [] \<Longrightarrow> Math_min (map Fin xs) = Fin (Min (set xs))"
proof (cases xs)
  case Nil
  then show "xs \<noteq> [] \<Longrightarrow> ?thesis" by simp
next
  case (Cons x xs')
  have "min_step PInf (Fin x) = Fin x" by (simp add: min_step_def)
  then have "foldl min_step PInf (map Fin xs) = Fin (Min (insert x (set xs')))"
    using foldl_min_step_Fin [of x xs'] Cons by simp
  then show ?thesis using Cons not_NaN_map_Fin [of xs] by (simp add: Math_min_def)
qed

section \<open>Means of integers are rounded exactly\<close>

lemma round_mean_exact:
  fixes S :: int and n :: nat
  assumes S: "\<bar>S\<bar> < 2 ^ 51" and n: "0 < n" "n < 2 ^ 32"
  shows "Math_round (js_div (Fin (of_int S)) (Fin (of_nat n)))
           = Fin (of_int (round (of_int S / of_nat n :: rat)))"
proof (cases "S = 0")
  case True
  then show ?thesis using n by (simp add: round_ties_up_eq_round)
next
  case False
  define N :: rat where "N = of_nat n"
  define x :: rat where "x = of_int S / N"
  define k where "k = round x"
  define e where "e = floor_log2 \<bar>x\<bar>"
  define q :: rat where "q = 2 powi (e - 52)"
  have Npos: "0 < N" and N1: "1 \<le> N" using n by (simp_all add: N_def)
  have "N < of_nat (2 ^ 32)" unfolding N_def using n(2) by (metis of_nat_less_iff)
  then have Nhi: "N < 2 ^ 32" by simp
  have "1 \<le> \<bar>S\<bar>" using False by simp
  then have S1: "(1::rat) \<le> \<bar>of_int S\<bar>" by (metis of_int_1_le_iff of_int_abs)
  have "(of_int \<bar>S\<bar> :: rat) < of_int (2 ^ 51)" using S by (metis of_int_less_iff)
  then have Shi: "\<bar>of_int S :: rat\<bar> < 2 ^ 51" by simp
  have ax: "\<bar>x\<bar> = \<bar>of_int S\<bar> / N" using Npos by (simp add: x_def abs_divide)
  have "1 / N \<le> \<bar>x\<bar>" unfolding ax using S1 Npos by (simp add: divide_right_mono)
  moreover have "(1::rat) / 2 ^ 32 < 1 / N" using Nhi Npos by (simp add: frac_less2)
  ultimately have lo: "2 powi (- 32) \<le> \<bar>x\<bar>" by (simp add: power_int_minus_divide)
  have "\<bar>of_int S :: rat\<bar> * 1 \<le> \<bar>of_int S\<bar> * N"
    using N1 by (intro mult_left_mono) simp_all
  then have "\<bar>x\<bar> \<le> \<bar>of_int S\<bar>" unfolding ax using Npos by (simp add: pos_divide_le_eq)
  then have hi: "\<bar>x\<bar> < 2 powi 51" using Shi by simp
  from floor_log2_range [OF lo hi] have e: "- 32 \<le> e" "e < 51" by (simp_all add: e_def)
  have "(0::rat) < 2 powi (- 32)" by (rule zero_less_power_int) simp
  with lo have xpos: "0 < \<bar>x\<bar>" by linarith
  from floor_log2_bounds [OF xpos] have b: "2 powi e \<le> \<bar>x\<bar>" "\<bar>x\<bar> < 2 powi (e + 1)"
    by (simp_all add: e_def)
  have fl: "fl64 x = Fin (of_int (round_ties_even (x / q)) * q)"
    unfolding q_def using b e by (intro fl64_normal) simp_all
  have qpos: "0 < q" unfolding q_def by (rule zero_less_power_int) simp
  \<comment> \<open>half-integers are multiples of the spacing\<close>
  have half: "1 / 2 = of_int (2 ^ nat (51 - e)) * q"
  proof -
    have "of_int (2 ^ nat (51 - e)) * q = (2::rat) powi (51 - e) * 2 powi (e - 52)"
      using e by (simp add: q_def power_int_def)
    also have "\<dots> = 2 powi (- 1)" by (simp add: power_int_add [symmetric])
    finally show ?thesis by (simp add: power_int_minus_divide)
  qed
  have grid: "of_int j / 2 = of_int (j * 2 ^ nat (51 - e)) * q" for j :: int
  proof -
    have "of_int j / 2 = of_int j * (1 / 2 :: rat)" by simp
    also have "\<dots> = of_int j * (of_int (2 ^ nat (51 - e)) * q)" by (simp only: half)
    finally show ?thesis by (simp add: mult.assoc)
  qed
  \<comment> \<open>the spacing is below the distance of the mean from the next half-integer\<close>
  have "N * 2 powi e \<le> N * \<bar>x\<bar>" using b(1) Npos by simp
  also have "\<dots> = \<bar>of_int S\<bar>" using Npos by (simp add: ax)
  finally have "N * 2 powi e < 2 powi 51" using Shi by simp
  then have "N * 2 powi e * 2 powi (- 52) < 2 powi 51 * 2 powi (- 52)"
    by (intro mult_strict_right_mono) (simp_all add: zero_less_power_int)
  then have "N * q < 2 powi (- 1)"
    by (simp add: q_def power_int_diff mult.assoc power_int_minus_divide)
  then have Nq: "2 * N * q < 1" by (simp add: power_int_minus_divide)
  have kx: "of_int k \<le> x + 1 / 2" "x - 1 / 2 < of_int k"
    unfolding k_def using of_int_round_le [of x] of_int_round_gt [of x] by simp_all
  have "0 < (2 * k + 1) * int n - 2 * S"
  proof -
    have "of_int S / N < of_int k + 1 / 2" using kx(2) by (simp add: x_def)
    then have "of_int S < (of_int k + 1 / 2) * N" using Npos by (simp add: pos_divide_less_eq)
    then have "(of_int (2 * S) :: rat) < of_int ((2 * k + 1) * int n)"
      by (simp add: N_def field_simps)
    then show ?thesis by (simp only: of_int_less_iff)
  qed
  then have "1 \<le> (2 * k + 1) * int n - 2 * S" by simp
  then have "(1::rat) \<le> of_int ((2 * k + 1) * int n - 2 * S)" by (metis of_int_1_le_iff)
  then have "1 \<le> (2 * of_int k + 1) * N - 2 * of_int S" by (simp add: N_def)
  then have "1 / (2 * N) \<le> of_int k + 1 / 2 - x" using Npos by (simp add: x_def field_simps)
  moreover have "q < 1 / (2 * N)" using Nq Npos by (simp add: field_simps)
  ultimately have up: "x \<le> of_int k + 1 / 2 - q" by linarith
  \<comment> \<open>so the rounded mean stays in the same unit interval around k\<close>
  define y :: rat where "y = of_int (round_ties_even (x / q)) * q"
  have "of_int ((2 * k - 1) * 2 ^ nat (51 - e)) * q = of_int (2 * k - 1) / 2" by (simp only: grid)
  also have "\<dots> \<le> x" using kx(1) by (simp add: diff_divide_distrib)
  finally have "of_int ((2 * k - 1) * 2 ^ nat (51 - e)) \<le> x / q" using qpos by (simp add: pos_le_divide_eq)
  then have "(2 * k - 1) * 2 ^ nat (51 - e) \<le> round_ties_even (x / q)" by (rule round_ties_even_ge)
  then have "(of_int ((2 * k - 1) * 2 ^ nat (51 - e)) :: rat) \<le> of_int (round_ties_even (x / q))"
    by (simp only: of_int_le_iff)
  then have "of_int ((2 * k - 1) * 2 ^ nat (51 - e)) * q \<le> y"
    unfolding y_def using qpos by (intro mult_right_mono) simp_all
  then have ylo: "of_int k - 1 / 2 \<le> y"
    by (simp only: grid [symmetric]) (simp add: diff_divide_distrib)
  have "x \<le> of_int (2 * k + 1) / 2 - q" using up by (simp add: add_divide_distrib)
  also have "\<dots> = of_int ((2 * k + 1) * 2 ^ nat (51 - e)) * q - q" by (simp only: grid)
  also have "\<dots> = of_int ((2 * k + 1) * 2 ^ nat (51 - e) - 1) * q" by (simp add: algebra_simps)
  finally have "x / q \<le> of_int ((2 * k + 1) * 2 ^ nat (51 - e) - 1)" using qpos by (simp add: pos_divide_le_eq)
  then have "round_ties_even (x / q) \<le> (2 * k + 1) * 2 ^ nat (51 - e) - 1" by (rule round_ties_even_le)
  then have "(of_int (round_ties_even (x / q)) :: rat) \<le> of_int ((2 * k + 1) * 2 ^ nat (51 - e) - 1)"
    by (simp only: of_int_le_iff)
  then have "y \<le> of_int ((2 * k + 1) * 2 ^ nat (51 - e) - 1) * q"
    unfolding y_def using qpos by (intro mult_right_mono) simp_all
  also have "\<dots> = of_int ((2 * k + 1) * 2 ^ nat (51 - e)) * q - q" by (simp add: algebra_simps)
  also have "\<dots> = of_int (2 * k + 1) / 2 - q" by (simp only: grid)
  finally have yhi: "y < of_int k + 1 / 2" using qpos by (simp add: add_divide_distrib)
  have "round y = k" using ylo yhi by (intro round_unique) simp_all
  then have "Math_round (Fin y) = Fin (of_int k)" by (simp add: round_ties_up_eq_round)
  moreover have "js_div (Fin (of_int S)) (Fin (of_nat n)) = Fin y"
    using fl Npos by (simp add: x_def N_def y_def)
  ultimately show ?thesis by (simp add: k_def x_def N_def)
qed

lemma reduce_sum_binary64: "reduce_sum (map Fin xs) = binary64_sum xs"
  by (simp add: reduce_sum_def binary64_sum_def foldl_map)

lemma binary64_mean_of_ints:
  fixes ns :: "int list"
  assumes "ns \<noteq> []" and "sum_list (map abs ns) < 2 ^ 51" and "length ns < 2 ^ 32"
  shows "Math_round (binary64_mean (map of_int ns))
           = Fin (of_int (round (sum_list (map of_int ns) / of_nat (length ns) :: rat)))"
proof -
  have "\<bar>0::int\<bar> + sum_list (map abs ns) < 2 ^ 53" using assms(2) by simp
  from foldl_js_add_int [OF this]
  have sum: "binary64_sum (map of_int ns) = Fin (of_int (sum_list ns))"
    by (simp add: binary64_sum_def foldl_map)
  have "\<bar>sum_list ns\<bar> \<le> sum_list (map abs ns)" by (induction ns) auto
  then have small: "\<bar>sum_list ns\<bar> < 2 ^ 51" using assms(2) by simp
  have len: "0 < length ns" using assms(1) by simp
  have "(sum_list (map of_int ns) :: rat) = of_int (sum_list ns)" by (induction ns) simp_all
  then show ?thesis
    using round_mean_exact [OF small len assms(3)] by (simp add: binary64_mean_def sum)
qed

section \<open>Counting descriptions\<close>

lemma set_first_occurrences: "set (first_occurrences xs) = set xs"
  by (induction xs) auto

lemma distinct_first_occurrences: "distinct (first_occurrences xs)"
  by (induction xs) auto

lemma first_occurrences_snoc:
  "first_occurrences (xs @ [d]) =
     (if d \<in> set xs then first_occurrences xs else first_occurrences xs @ [d])"
  by (induction xs) auto

lemma takeWhile_filter_commute:
  "(\<And>y. \<not> P y \<Longrightarrow> Q y) \<Longrightarrow> takeWhile P (filter Q xs) = filter Q (takeWhile P xs)"
  by (induction xs) auto

lemma before_first_occurrence:
  "set (takeWhile (\<lambda>y. y \<noteq> s) (first_occurrences xs)) = set (takeWhile (\<lambda>y. y \<noteq> s) xs)"
proof (induction xs)
  case Nil
  show ?case by simp
next
  case (Cons x xs)
  show ?case
  proof (cases "x = s")
    case True
    then show ?thesis by simp
  next
    case False
    have "takeWhile (\<lambda>y. y \<noteq> s) (filter (\<lambda>y. y \<noteq> x) (first_occurrences xs))
        = filter (\<lambda>y. y \<noteq> x) (takeWhile (\<lambda>y. y \<noteq> s) (first_occurrences xs))"
      using False by (intro takeWhile_filter_commute) auto
    then show ?thesis using False Cons.IH by auto
  qed
qed

lemma keys_obj_set:
  "map fst (obj_set acc k v) =
     (if k \<in> set (map fst acc) then map fst acc else map fst acc @ [k])"
  by (induction acc) force+

lemma map_of_obj_set: "map_of (obj_set acc k v) = (map_of acc)(k \<mapsto> v)"
  by (induction acc) (auto simp: fun_eq_iff)

lemma weatherTypeCounts_snoc:
  "weatherTypeCounts (cs @ [c]) = count_step (weatherTypeCounts cs) c"
  by (simp add: weatherTypeCounts_def)

lemma keys_weatherTypeCounts:
  "map fst (weatherTypeCounts cs) = first_occurrences (map getWeatherDescription cs)"
proof (induction cs rule: rev_induct)
  case Nil
  show ?case by (simp add: weatherTypeCounts_def)
next
  case (snoc c cs)
  have "set (map fst (weatherTypeCounts cs)) = set (map getWeatherDescription cs)"
    using snoc set_first_occurrences [of "map getWeatherDescription cs"] by simp
  then show ?case using snoc
    by (simp add: weatherTypeCounts_snoc count_step_def Let_def keys_obj_set
        first_occurrences_snoc del: set_map)
qed

lemma map_of_weatherTypeCounts:
  "map_of (weatherTypeCounts cs) k =
     (if k \<in> set (map getWeatherDescription cs)
      then Some (count_list (map getWeatherDescription cs) k) else None)"
proof (induction cs rule: rev_induct)
  case Nil
  show ?case by (simp add: weatherTypeCounts_def)
next
  case (snoc c cs)
  then show ?case
    by (auto simp: weatherTypeCounts_snoc count_step_def Let_def map_of_obj_set)
qed

lemma entry_weatherTypeCounts:
  assumes "(k, v) \<in> set (weatherTypeCounts cs)"
  shows "k \<in> set (map getWeatherDescription cs) \<and> v = count_list (map getWeatherDescription cs) k"
proof -
  have "distinct (map fst (weatherTypeCounts cs))"
    by (simp add: keys_weatherTypeCounts distinct_first_occurrences)
  then have "map_of (weatherTypeCounts cs) k = Some v" using assms by simp
  then show ?thesis by (simp add: map_of_weatherTypeCounts split: if_splits)
qed

lemma stable_sort_Cons: "stable_sort cmp (x # xs) = insert_sorted cmp x (stable_sort cmp xs)"
  by (simp add: stable_sort_def)

lemma first_entry_insert_sorted:
  "first_entry (insert_sorted cmp x ys) =
     (case first_entry ys of None \<Rightarrow> Some x
      | Some y \<Rightarrow> if cmp x y \<le> 0 then Some x else Some y)"
  by (cases ys) (simp_all add: first_entry_def)

lemma first_entry_None: "first_entry (stable_sort cmp xs) = None \<longleftrightarrow> xs = []"
proof (cases xs)
  case Nil
  then show ?thesis by (simp add: stable_sort_def first_entry_def)
next
  case (Cons x xs')
  then show ?thesis
    by (simp add: stable_sort_Cons first_entry_insert_sorted split: option.splits)
qed

lemma first_entry_stable_sort:
  "first_entry (stable_sort by_count_desc es) = Some e \<Longrightarrow>
     \<exists>pre post. es = pre @ e # post \<and> (\<forall>x\<in>set pre. snd x < snd e) \<and> (\<forall>x\<in>set post. snd x \<le> snd e)"
proof (induction es arbitrary: e)
  case Nil
  then show ?case by (simp add: stable_sort_def first_entry_def)
next
  case (Cons x xs)
  show ?case
  proof (cases "first_entry (stable_sort by_count_desc xs)")
    case None
    then have "xs = []" by (simp add: first_entry_None)
    moreover have "e = x" using Cons.prems None
      by (simp add: stable_sort_Cons first_entry_insert_sorted)
    ultimately have "x # xs = [] @ e # []" by simp
    then show ?thesis by (metis empty_iff list.set(1))
  next
    case (Some y)
    from Cons.IH [OF Some] obtain pre post where
      d: "xs = pre @ y # post" "\<forall>z\<in>set pre. snd z < snd y" "\<forall>z\<in>set post. snd z \<le> snd y"
      by blast
    show ?thesis
    proof (cases "by_count_desc x y \<le> 0")
      case True
      then have "e = x" using Cons.prems Some
        by (simp add: stable_sort_Cons first_entry_insert_sorted)
      moreover have "\<forall>z\<in>set xs. snd z \<le> snd x"
        using d True by (auto simp: by_count_desc_def) 
      ultimately have "x # xs = [] @ e # xs \<and> (\<forall>z\<in>set []. snd z < snd e) \<and> (\<forall>z\<in>set xs. snd z \<le> snd e)"
        by simp
      then show ?thesis by blast
    next
      case False
      then have "e = y" using Cons.prems Some
        by (simp add: stable_sort_Cons first_entry_insert_sorted)
      moreover have "snd x < snd y" using False by (simp add: by_count_desc_def)
      ultimately have "x # xs = (x # pre) @ e # post \<and> (\<forall>z\<in>set (x # pre). snd z < snd e) \<and> (\<forall>z\<in>set post. snd z \<le> snd e)"
        using d by simp
      then show ?thesis by blast
    qed
  qed
qed

text \<open>
  Every description starts with an upper-case letter. So none of them is an array
  index (a string of digits), which \<^verbatim>\<open>Object.entries\<close> would enumerate before
  the other keys, and none is the name of a property inherited from
  \<^verbatim>\<open>Object.prototype\<close>, which \<^verbatim>\<open>acc[description]\<close> would find.
\<close>

lemma description_starts_uppercase:
  "\<exists>c cs. getWeatherDescription code = c # cs \<and> c \<in> set ''DGJMNOPRSZ''"
  unfolding getWeatherDescription_def WEATHER_CODES_def by simp

lemma takeWhile_until:
  "x \<notin> set xs \<Longrightarrow> takeWhile (\<lambda>y. y \<noteq> x) (xs @ x # ys) = xs"
  by (induction xs) auto

lemma most_common_entry:
  assumes "cs \<noteq> []"
  shows "\<exists>w n pre post.
           first_entry (stable_sort by_count_desc (weatherTypeCounts cs)) = Some (w, n) \<and>
           n = count_list (map getWeatherDescription cs) w \<and>
           (\<forall>t. count_list (map getWeatherDescription cs) t \<le> n) \<and>
           map getWeatherDescription cs = pre @ w # post \<and>
           (\<forall>t\<in>set pre. count_list (map getWeatherDescription cs) t < n)"
proof -
  let ?ds = "map getWeatherDescription cs"
  let ?es = "weatherTypeCounts cs"
  have keys: "map fst ?es = first_occurrences ?ds" by (rule keys_weatherTypeCounts)
  have "?es \<noteq> []" using keys assms by (cases cs) auto
  then obtain e where e: "first_entry (stable_sort by_count_desc ?es) = Some e"
    using first_entry_None [of by_count_desc ?es] by (cases "first_entry (stable_sort by_count_desc ?es)") auto
  obtain w n where wn: "e = (w, n)" by (cases e)
  from first_entry_stable_sort [OF e] wn obtain P Q where
    d: "?es = P @ (w, n) # Q" "\<forall>x\<in>set P. snd x < n" "\<forall>x\<in>set Q. snd x \<le> n"
    by auto
  have mem: "(w, n) \<in> set ?es" using d(1) by simp
  from entry_weatherTypeCounts [OF mem] have w_in: "w \<in> set ?ds" and n: "n = count_list ?ds w"
    by simp_all
  have le: "count_list ?ds t \<le> n" for t
  proof (cases "t \<in> set ?ds")
    case False
    then show ?thesis by (simp add: count_list_0_iff)
  next
    case True
    then have "t \<in> set (map fst ?es)" by (simp add: keys set_first_occurrences del: set_map)
    then obtain v where tv: "(t, v) \<in> set ?es" by auto
    then have "v = count_list ?ds t" using entry_weatherTypeCounts by blast
    moreover have "v \<le> n" using tv d by auto
    ultimately show ?thesis by simp
  qed
  have dist: "distinct (map fst ?es)" by (simp add: keys distinct_first_occurrences)
  have "w \<notin> set (map fst P)" using dist d(1) by auto
  then have "takeWhile (\<lambda>y. y \<noteq> w) (map fst ?es) = map fst P"
    using d(1) takeWhile_until [of w "map fst P" "map fst Q"] by simp
  then have pre: "set (takeWhile (\<lambda>y. y \<noteq> w) ?ds) = set (map fst P)"
    using before_first_occurrence [of w ?ds] keys by simp
  have lt: "\<forall>t\<in>set (takeWhile (\<lambda>y. y \<noteq> w) ?ds). count_list ?ds t < n"
  proof
    fix t assume "t \<in> set (takeWhile (\<lambda>y. y \<noteq> w) ?ds)"
    then obtain v where tv: "(t, v) \<in> set P" using pre by auto
    then have "(t, v) \<in> set ?es" using d(1) by simp
    then have "v = count_list ?ds t" using entry_weatherTypeCounts by blast
    moreover have "v < n" using tv d(2) by auto
    ultimately show "count_list ?ds t < n" by simp
  qed
  have "dropWhile (\<lambda>y. y \<noteq> w) ?ds \<noteq> []" using w_in by (simp add: dropWhile_eq_Nil_conv del: set_map)
  then obtain post where post: "dropWhile (\<lambda>y. y \<noteq> w) ?ds = w # post"
    using hd_dropWhile [of "\<lambda>y. y \<noteq> w" ?ds] by (cases "dropWhile (\<lambda>y. y \<noteq> w) ?ds") auto
  have "?ds = takeWhile (\<lambda>y. y \<noteq> w) ?ds @ w # post"
    using takeWhile_dropWhile_id [of "\<lambda>y. y \<noteq> w" ?ds] post by simp
  with e wn n le lt show ?thesis by blast
qed

lemma analyze_Some:
  "daily h = Some d \<Longrightarrow> \<exists>s. analyzeWeatherHistory h = Some s"
  by (simp add: analyzeWeatherHistory_def Let_def)

section \<open>The catalog: fallbacks, day and night, totality\<close>

text \<open>
  C5. The two fallbacks differ. For a code with no row in the catalog, the description
  is the fixed label \<open>Neznano\<close>, which is not the description of code 0, while the
  icon is the icon of code 0, for either value of the day flag.
\<close>

theorem fallback_asymmetry:
  assumes "WEATHER_CODES code = None"
  shows "getWeatherDescription code = ''Neznano'' \<and>
         getWeatherDescription code \<noteq> getWeatherDescription 0 \<and>
         getWeatherIcon code isDay = getWeatherIcon 0 isDay"
proof -
  obtain e0 where "WEATHER_CODES 0 = Some e0" and "description e0 = ''Jasno''"
    by (simp add: WEATHER_CODES_def)
  then show ?thesis using assms
    by (simp add: getWeatherDescription_def getWeatherIcon_def)
qed

theorem fallback_asymmetry_witness:
  "WEATHER_CODES 9999 = None \<and>
   getWeatherDescription 9999 = ''Neznano'' \<and>
   getWeatherDescription 9999 \<noteq> getWeatherDescription 0 \<and>
   getWeatherIcon 9999 True = getWeatherIcon 0 True \<and>
   getWeatherIcon 9999 False = getWeatherIcon 0 False"
proof -
  have absent: "WEATHER_CODES 9999 = None" by (simp add: WEATHER_CODES_def)
  show ?thesis
    using absent fallback_asymmetry [OF absent, of True] fallback_asymmetry [OF absent, of False]
    by simp
qed

text \<open>
  C6. For a code of the catalog whose icon is a day/night pair, the day flag selects
  the day name and its absence the night name, and the two results differ; for a code
  whose icon is a single name, both calls return that name.
\<close>

theorem day_night_selection:
  assumes "WEATHER_CODES code = Some e"
  shows "case icon e of
           DayNight d n \<Rightarrow>
             getWeatherIcon code True = Inr d \<and> getWeatherIcon code False = Inr n \<and>
             getWeatherIcon code True \<noteq> getWeatherIcon code False
         | Single s \<Rightarrow>
             getWeatherIcon code True = Inr s \<and> getWeatherIcon code False = Inr s"
proof -
  have pairs_differ: "icon e = DayNight d n \<Longrightarrow> d \<noteq> n" for d n
    using assms unfolding WEATHER_CODES_def by (auto split: if_splits)
  show ?thesis using assms pairs_differ
    by (cases "icon e") (simp_all add: getWeatherIcon_def)
qed

theorem day_night_selection_witness:
  "WEATHER_CODES 0 = Some \<lparr>description = ''Jasno'', icon = DayNight ''clear-day'' ''clear-night''\<rparr> \<and>
   getWeatherIcon 0 True = Inr ''clear-day'' \<and>
   getWeatherIcon 0 False = Inr ''clear-night'' \<and>
   getWeatherIcon 0 True \<noteq> getWeatherIcon 0 False \<and>
   WEATHER_CODES 95 = Some \<lparr>description = ''Nevihta'', icon = Single ''thunderstorms''\<rparr> \<and>
   getWeatherIcon 95 True = Inr ''thunderstorms'' \<and>
   getWeatherIcon 95 False = Inr ''thunderstorms''"
proof -
  have clear: "WEATHER_CODES 0 =
      Some \<lparr>description = ''Jasno'', icon = DayNight ''clear-day'' ''clear-night''\<rparr>"
    by (simp add: WEATHER_CODES_def)
  have storm: "WEATHER_CODES 95 =
      Some \<lparr>description = ''Nevihta'', icon = Single ''thunderstorms''\<rparr>"
    by (simp add: WEATHER_CODES_def)
  show ?thesis
    using clear storm day_night_selection [OF clear] day_night_selection [OF storm]
    by simp
qed

text \<open>
  C7. Both lookups are total: for every integer code and either value of the day flag,
  the description is a non-empty string and the icon lookup returns, without an error, a
  non-empty string.
\<close>

theorem catalog_total:
  "getWeatherDescription code \<noteq> [] \<and>
   (\<exists>s. getWeatherIcon code isDay = Inr s \<and> s \<noteq> [])"
proof -
  have "getWeatherDescription code \<noteq> []"
    by (simp add: getWeatherDescription_def split: option.splits)
  moreover have "\<exists>s. getWeatherIcon code isDay = Inr s \<and> s \<noteq> []"
    unfolding getWeatherIcon_def WEATHER_CODES_def by (simp split: option.splits)
  ultimately show ?thesis by simp
qed

section \<open>The analysis: absent data, extremes, averages\<close>

text \<open>
  C1. The analysis of a response whose daily arrays \<open>time\<close>, \<open>weather_code\<close>,
  \<open>temperature_2m_max\<close>, \<open>temperature_2m_min\<close> and \<open>precipitation_sum\<close> are all
  empty is not null, although the function is documented to return null if there is no
  data: the guard tests the \<open>daily\<close> object only, and the result is a summary with
  infinite extremes, NaN averages and the label \<open>Neznano\<close> with count 0.
\<close>

theorem empty_arrays_summary:
  "analyzeWeatherHistory
     \<lparr>daily = Some \<lparr>time = [], weather_code = [], temperature_2m_max = [],
                    temperature_2m_min = [], precipitation_sum = []\<rparr>\<rparr>
   = Some \<lparr>extremes = \<lparr>hottestDay = NInf, coldestDay = PInf, wettestDay = NInf\<rparr>,
            averages = \<lparr>avgMaxTemp = NaN, avgMinTemp = NaN, totalPrecipitation = Fin 0\<rparr>,
            weatherPatterns = \<lparr>mostCommonWeather = ''Neznano'', mostCommonWeatherDays = 0,
                               totalDays = 0\<rparr>\<rparr>"
  by (simp add: analyzeWeatherHistory_def Let_def Math_max_def Math_min_def reduce_sum_def
      weatherTypeCounts_def stable_sort_def first_entry_def round_ties_up_def)




text \<open>
  C3, as amended. For a series whose temperature arrays are non-empty lists of finite
  numbers, \<open>avgMaxTemp\<close> and \<open>avgMinTemp\<close> are the means of \<open>temperature_2m_max\<close>
  and of \<open>temperature_2m_min\<close> as binary64 arithmetic computes them, rounded to the
  nearest integer, and \<open>totalPrecipitation\<close> is the binary64 sum of
  \<open>precipitation_sum\<close> multiplied by 10, rounded and divided by 10 in binary64. When
  the temperatures are integers (the sum of their magnitudes below \<open>2 ^ 51\<close>, fewer
  than \<open>2 ^ 32\<close> days), the averages are exactly the arithmetic means rounded to the
  nearest integer.
\<close>

theorem analyze_averages:
  assumes "daily h = Some d"
    and "temperature_2m_max d = map Fin hs" and "hs \<noteq> []"
    and "temperature_2m_min d = map Fin cs" and "cs \<noteq> []"
    and "precipitation_sum d = map Fin ps"
  shows "\<exists>s. analyzeWeatherHistory h = Some s \<and>
           avgMaxTemp (averages s) = Math_round (binary64_mean hs) \<and>
           avgMinTemp (averages s) = Math_round (binary64_mean cs) \<and>
           totalPrecipitation (averages s) =
             js_div (Math_round (js_mul (binary64_sum ps) (Fin 10))) (Fin 10) \<and>
           (\<forall>ns. hs = map of_int ns \<and> sum_list (map abs ns) < 2 ^ 51 \<and> length ns < 2 ^ 32 \<longrightarrow>
              avgMaxTemp (averages s) = Fin (of_int (round (sum_list hs / of_nat (length hs))))) \<and>
           (\<forall>ns. cs = map of_int ns \<and> sum_list (map abs ns) < 2 ^ 51 \<and> length ns < 2 ^ 32 \<longrightarrow>
              avgMinTemp (averages s) = Fin (of_int (round (sum_list cs / of_nat (length cs)))))"
proof -
  have exact: "Math_round (binary64_mean xs) = Fin (of_int (round (sum_list xs / of_nat (length xs))))"
    if "xs \<noteq> []" "xs = map of_int ns" "sum_list (map abs ns) < 2 ^ 51" "length ns < 2 ^ 32"
    for xs :: "rat list" and ns
  proof -
    have "ns \<noteq> []" using that(1,2) by auto
    from binary64_mean_of_ints [OF this that(3,4)] show ?thesis using that(2) by simp
  qed
  obtain s where s: "analyzeWeatherHistory h = Some s"
    using analyze_Some [OF assms(1)] by blast
  have a: "avgMaxTemp (averages s) = Math_round (binary64_mean hs)"
    "avgMinTemp (averages s) = Math_round (binary64_mean cs)"
    "totalPrecipitation (averages s) =
       js_div (Math_round (js_mul (binary64_sum ps) (Fin 10))) (Fin 10)"
    using s assms
    by (auto simp: analyzeWeatherHistory_def Let_def reduce_sum_binary64 binary64_mean_def)
  show ?thesis using s a exact [OF assms(3)] exact [OF assms(5)] by auto
qed

theorem analyze_averages_witness:
  "(let d = \<lparr>time = [''2024-06-01'', ''2024-06-02'', ''2024-06-03''],
             weather_code = [0, 61, 3],
             temperature_2m_max = map Fin [10, 25, 18],
             temperature_2m_min = map Fin [2, 14, 9],
             precipitation_sum = map Fin [0, 5967269506265907 / 1125899906842624,
                                          2476979795053773 / 2251799813685248]\<rparr>
    in temperature_2m_max d \<noteq> [] \<and> temperature_2m_min d \<noteq> [] \<and>
       [10, 25, 18] = map rat_of_int [10, 25, 18] \<and> [2, 14, 9] = map rat_of_int [2, 14, 9] \<and>
       sum_list (map abs [10, 25, 18 :: int]) < 2 ^ 51 \<and>
       sum_list (map abs [2, 14, 9 :: int]) < 2 ^ 51 \<and>
       length [10, 25, 18 :: int] < 2 ^ 32 \<and>
       (\<exists>s. analyzeWeatherHistory \<lparr>daily = Some d\<rparr> = Some s \<and>
          avgMaxTemp (averages s) = Fin 18 \<and>
          avgMinTemp (averages s) = Fin 8 \<and>
          totalPrecipitation (averages s) = Fin (3602879701896397 / 562949953421312) \<and>
          fl64 (64 / 10) = Fin (3602879701896397 / 562949953421312)))"
proof -
  let ?d = "\<lparr>time = [''2024-06-01'', ''2024-06-02'', ''2024-06-03''],
             weather_code = [0, 61, 3],
             temperature_2m_max = map Fin [10, 25, 18],
             temperature_2m_min = map Fin [2, 14, 9],
             precipitation_sum = map Fin [0, 5967269506265907 / 1125899906842624,
                                          2476979795053773 / 2251799813685248]\<rparr>"
  from analyze_averages [of "\<lparr>daily = Some ?d\<rparr>" ?d "[10, 25, 18]" "[2, 14, 9]"
      "[0, 5967269506265907 / 1125899906842624, 2476979795053773 / 2251799813685248]"]
  obtain s where s: "analyzeWeatherHistory \<lparr>daily = Some ?d\<rparr> = Some s"
    and t: "totalPrecipitation (averages s) =
        js_div (Math_round (js_mul (binary64_sum [0, 5967269506265907 / 1125899906842624,
          2476979795053773 / 2251799813685248]) (Fin 10))) (Fin 10)"
    and hi: "\<forall>ns. [10, 25, 18] = map rat_of_int ns \<and> sum_list (map abs ns) < 2 ^ 51 \<and>
          length ns < 2 ^ 32 \<longrightarrow>
        avgMaxTemp (averages s) = Fin (of_int (round (sum_list [10, 25, 18 :: rat] / of_nat (length [10, 25, 18 :: rat]))))"
    and lo: "\<forall>ns. [2, 14, 9] = map rat_of_int ns \<and> sum_list (map abs ns) < 2 ^ 51 \<and>
          length ns < 2 ^ 32 \<longrightarrow>
        avgMinTemp (averages s) = Fin (of_int (round (sum_list [2, 14, 9 :: rat] / of_nat (length [2, 14, 9 :: rat]))))"
    by auto
  have "avgMaxTemp (averages s) = Fin 18"
    using hi [rule_format, of "[10, 25, 18]"] by (simp add: round_def floor_rat_numeral)
  moreover have "avgMinTemp (averages s) = Fin 8"
    using lo [rule_format, of "[2, 14, 9]"] by (simp add: round_def floor_rat_numeral)
  moreover have "totalPrecipitation (averages s) = Fin (3602879701896397 / 562949953421312)"
    using t by (simp add: binary64_sum_def fl64_binades fl64_evals)
  moreover have "fl64 (64 / 10) = Fin (3602879701896397 / 562949953421312)"
    by (simp add: fl64_binades fl64_evals)
  ultimately show ?thesis using s by (simp add: Let_def)
qed

text \<open>
  C3 as stated fails where the rounding errors of the sum move the mean across a half.
  For the numbers that \<^verbatim>\<open>30.9\<close> and \<^verbatim>\<open>10.1\<close> denote, the arithmetic mean is
  below 20.5 and rounds to 20, while the binary64 sum is exactly 41 and the code returns
  21. For \<^verbatim>\<open>24.6\<close>, \<^verbatim>\<open>26.2\<close>, \<^verbatim>\<open>31.4\<close>, \<^verbatim>\<open>23.8\<close> the
  arithmetic mean is 26.5 and rounds to 27, while the binary64 mean is below 26.5 and the
  code returns 26.
\<close>

theorem float_mean_counterexample:
  "map_option (avgMaxTemp \<circ> averages)
     (analyzeWeatherHistory
        \<lparr>daily = Some \<lparr>time = [''2024-06-01'', ''2024-06-02''], weather_code = [0, 0],
                       temperature_2m_max = [Fin (4348788390179635 / 140737488355328),
                                             Fin (5685794529555251 / 562949953421312)],
                       temperature_2m_min = [Fin 20, Fin 5],
                       precipitation_sum = [Fin 0, Fin 0]\<rparr>\<rparr>)
     = Some (Fin 21)
   \<and> fl64 (309 / 10) = Fin (4348788390179635 / 140737488355328)
   \<and> fl64 (101 / 10) = Fin (5685794529555251 / 562949953421312)
   \<and> round (sum_list [4348788390179635 / 140737488355328,
                       5685794529555251 / 562949953421312 :: rat] / 2) = 20
   \<and> map_option (avgMaxTemp \<circ> averages)
     (analyzeWeatherHistory
        \<lparr>daily = Some \<lparr>time = [''2024-06-01'', ''2024-06-02'', ''2024-06-03'', ''2024-06-04''],
                       weather_code = [0, 0, 0, 0],
                       temperature_2m_max = [Fin (3462142213541069 / 140737488355328),
                                             Fin (7374644389819187 / 281474976710656),
                                             Fin (4419157134357299 / 140737488355328),
                                             Fin (6699104445713613 / 281474976710656)],
                       temperature_2m_min = [Fin 10, Fin 10, Fin 10, Fin 10],
                       precipitation_sum = [Fin 0, Fin 0, Fin 0, Fin 0]\<rparr>\<rparr>)
     = Some (Fin 26)
   \<and> fl64 (246 / 10) = Fin (3462142213541069 / 140737488355328)
   \<and> fl64 (262 / 10) = Fin (7374644389819187 / 281474976710656)
   \<and> fl64 (314 / 10) = Fin (4419157134357299 / 140737488355328)
   \<and> fl64 (238 / 10) = Fin (6699104445713613 / 281474976710656)
   \<and> round (sum_list [3462142213541069 / 140737488355328, 7374644389819187 / 281474976710656,
                       4419157134357299 / 140737488355328,
                       6699104445713613 / 281474976710656 :: rat] / 4) = 27"
  by (simp add: analyzeWeatherHistory_def Let_def reduce_sum_def round_def
      fl64_binades fl64_evals)

section \<open>The analysis: the most common weather\<close>

text \<open>
  C4. For a series with at least one day, let the descriptions be the codes resolved
  through \<open>getWeatherDescription\<close>. Then \<open>mostCommonWeatherDays\<close> is the number of
  descriptions equal to \<open>mostCommonWeather\<close>, no description occurs more often, and
  \<open>mostCommonWeather\<close> occurs at a position before which every description occurs
  strictly less often: among the descriptions with the highest count it is the one met
  first. The result is a function of the series, so repeated calls agree.
\<close>

theorem most_common_weather:
  assumes "daily h = Some d" and "weather_code d \<noteq> []"
  shows "\<exists>s. analyzeWeatherHistory h = Some s \<and>
           mostCommonWeatherDays (weatherPatterns s) =
             count_list (map getWeatherDescription (weather_code d))
               (mostCommonWeather (weatherPatterns s)) \<and>
           (\<forall>t. count_list (map getWeatherDescription (weather_code d)) t
                  \<le> mostCommonWeatherDays (weatherPatterns s)) \<and>
           (\<exists>pre post.
              map getWeatherDescription (weather_code d)
                = pre @ mostCommonWeather (weatherPatterns s) # post \<and>
              (\<forall>t\<in>set pre. count_list (map getWeatherDescription (weather_code d)) t
                  < mostCommonWeatherDays (weatherPatterns s)))"
proof -
  from most_common_entry [OF assms(2)] obtain w n pre post where
    e: "first_entry (stable_sort by_count_desc (weatherTypeCounts (weather_code d))) = Some (w, n)"
    and p: "n = count_list (map getWeatherDescription (weather_code d)) w"
      "\<forall>t. count_list (map getWeatherDescription (weather_code d)) t \<le> n"
      "map getWeatherDescription (weather_code d) = pre @ w # post"
      "\<forall>t\<in>set pre. count_list (map getWeatherDescription (weather_code d)) t < n"
    by blast
  obtain s where s: "analyzeWeatherHistory h = Some s"
    using analyze_Some [OF assms(1)] by blast
  have mw: "mostCommonWeather (weatherPatterns s) = w"
    "mostCommonWeatherDays (weatherPatterns s) = n"
    using s assms(1) e by (auto simp: analyzeWeatherHistory_def Let_def)
  from p(3,4) have "\<exists>pre post. map getWeatherDescription (weather_code d) = pre @ w # post \<and>
      (\<forall>t\<in>set pre. count_list (map getWeatherDescription (weather_code d)) t < n)"
    by blast
  then show ?thesis using s p(1,2) mw by (intro exI [of _ s]) simp
qed

theorem most_common_weather_witness:
  "(let d = \<lparr>time = [''2024-06-01'', ''2024-06-02'', ''2024-06-03'', ''2024-06-04''],
             weather_code = [0, 3, 0, 3],
             temperature_2m_max = map Fin [20, 21, 22, 23],
             temperature_2m_min = map Fin [10, 11, 12, 13],
             precipitation_sum = map Fin [0, 0, 0, 0]\<rparr>
    in weather_code d \<noteq> [] \<and>
       (\<exists>s. analyzeWeatherHistory \<lparr>daily = Some d\<rparr> = Some s \<and>
          mostCommonWeather (weatherPatterns s) = getWeatherDescription 0 \<and>
          mostCommonWeather (weatherPatterns s) = ''Jasno'' \<and>
          mostCommonWeatherDays (weatherPatterns s) = 2))"
  using most_common_weather [of "\<lparr>daily = Some \<lparr>time = [''2024-06-01'', ''2024-06-02'', ''2024-06-03'', ''2024-06-04''],
             weather_code = [0, 3, 0, 3],
             temperature_2m_max = map Fin [20, 21, 22, 23],
             temperature_2m_min = map Fin [10, 11, 12, 13],
             precipitation_sum = map Fin [0, 0, 0, 0]\<rparr>\<rparr>" "\<lparr>time = [''2024-06-01'', ''2024-06-02'', ''2024-06-03'', ''2024-06-04''],
             weather_code = [0, 3, 0, 3],
             temperature_2m_max = map Fin [20, 21, 22, 23],
             temperature_2m_min = map Fin [10, 11, 12, 13],
             precipitation_sum = map Fin [0, 0, 0, 0]\<rparr>"]
  by (simp add: analyzeWeatherHistory_def Let_def Math_max_def Math_min_def reduce_sum_def
      max_step_def min_step_def weatherTypeCounts_def count_step_def stable_sort_def
      by_count_desc_def first_entry_def round_ties_up_def getWeatherDescription_def
      WEATHER_CODES_def floor_rat_numeral floor_rat_minus_numeral)

text \<open>
  C10. For a series with at least one day, \<open>totalDays\<close> is the length of
  \<open>weather_code\<close>, \<open>mostCommonWeatherDays\<close> lies between 1 and \<open>totalDays\<close>, and
  \<open>mostCommonWeather\<close> is the description of a code of the series (codes outside the
  catalog all have the description \<open>Neznano\<close>).
\<close>

theorem patterns_invariant:
  assumes "daily h = Some d" and "weather_code d \<noteq> []"
  shows "\<exists>s. analyzeWeatherHistory h = Some s \<and>
           totalDays (weatherPatterns s) = length (weather_code d) \<and>
           1 \<le> mostCommonWeatherDays (weatherPatterns s) \<and>
           mostCommonWeatherDays (weatherPatterns s) \<le> totalDays (weatherPatterns s) \<and>
           mostCommonWeather (weatherPatterns s) \<in> getWeatherDescription ` set (weather_code d)"
proof -
  let ?ds = "map getWeatherDescription (weather_code d)"
  from most_common_entry [OF assms(2)] obtain w n pre post where
    e: "first_entry (stable_sort by_count_desc (weatherTypeCounts (weather_code d))) = Some (w, n)"
    and p: "n = count_list ?ds w" "?ds = pre @ w # post"
    by blast
  have w_in: "w \<in> set ?ds" using p(2) by (metis in_set_conv_decomp)
  then have "count_list ?ds w \<noteq> 0" using count_list_0_iff [of ?ds w] by blast
  then have "0 < n" using p(1) by simp
  moreover have "n \<le> length (weather_code d)" using p(1) count_le_length [of ?ds w] by simp
  moreover obtain s where s: "analyzeWeatherHistory h = Some s"
    using analyze_Some [OF assms(1)] by blast
  moreover have "mostCommonWeather (weatherPatterns s) = w"
    "mostCommonWeatherDays (weatherPatterns s) = n"
    "totalDays (weatherPatterns s) = length (weather_code d)"
    using s assms(1) e by (auto simp: analyzeWeatherHistory_def Let_def)
  ultimately show ?thesis using w_in by auto
qed

theorem patterns_invariant_witness:
  "(let d = \<lparr>time = [''2024-06-01'', ''2024-06-02'', ''2024-06-03''],
             weather_code = [1234, 0, - 5],
             temperature_2m_max = map Fin [20, 21, 22],
             temperature_2m_min = map Fin [10, 11, 12],
             precipitation_sum = map Fin [0, 0, 0]\<rparr>
    in weather_code d \<noteq> [] \<and>
       (\<exists>s. analyzeWeatherHistory \<lparr>daily = Some d\<rparr> = Some s \<and>
          totalDays (weatherPatterns s) = 3 \<and>
          mostCommonWeatherDays (weatherPatterns s) = 2 \<and>
          mostCommonWeather (weatherPatterns s) = ''Neznano'' \<and>
          mostCommonWeather (weatherPatterns s) = getWeatherDescription 1234))"
  using patterns_invariant [of "\<lparr>daily = Some \<lparr>time = [''2024-06-01'', ''2024-06-02'', ''2024-06-03''],
             weather_code = [1234, 0, - 5],
             temperature_2m_max = map Fin [20, 21, 22],
             temperature_2m_min = map Fin [10, 11, 12],
             precipitation_sum = map Fin [0, 0, 0]\<rparr>\<rparr>" "\<lparr>time = [''2024-06-01'', ''2024-06-02'', ''2024-06-03''],
             weather_code = [1234, 0, - 5],
             temperature_2m_max = map Fin [20, 21, 22],
             temperature_2m_min = map Fin [10, 11, 12],
             precipitation_sum = map Fin [0, 0, 0]\<rparr>"]
  by (simp add: analyzeWeatherHistory_def Let_def Math_max_def Math_min_def reduce_sum_def
      max_step_def min_step_def weatherTypeCounts_def count_step_def stable_sort_def
      by_count_desc_def first_entry_def round_ties_up_def getWeatherDescription_def
      WEATHER_CODES_def floor_rat_numeral floor_rat_minus_numeral)

section \<open>The analysis: rounding\<close>

text \<open>
  C8, as amended. Every rounding of the analysis is rounding half up, towards positive
  infinity, of the binary64 number computed at that point: when that number (a
  temperature extreme, a binary64 mean, or ten times the binary64 maximum or sum of the
  precipitation) is an integer plus one half, the result is the next integer above it
  (divided by 10 in binary64 for the precipitation fields). For values that are not
  negative this is away from zero.
\<close>

theorem rounding_half_up:
  assumes "daily h = Some d"
    and "temperature_2m_max d = map Fin hs" and "hs \<noteq> []"
    and "temperature_2m_min d = map Fin cs" and "cs \<noteq> []"
    and "precipitation_sum d = map Fin ps" and "ps \<noteq> []"
  shows "\<exists>s. analyzeWeatherHistory h = Some s \<and>
     (\<forall>k. Max (set hs) = of_int k + 1 / 2 \<longrightarrow>
          hottestDay (extremes s) = Fin (of_int (k + 1))) \<and>
     (\<forall>k. Min (set cs) = of_int k + 1 / 2 \<longrightarrow>
          coldestDay (extremes s) = Fin (of_int (k + 1))) \<and>
     (\<forall>k. js_mul (Fin (Max (set ps))) (Fin 10) = Fin (of_int k + 1 / 2) \<longrightarrow>
          wettestDay (extremes s) = js_div (Fin (of_int (k + 1))) (Fin 10)) \<and>
     (\<forall>k. binary64_mean hs = Fin (of_int k + 1 / 2) \<longrightarrow>
          avgMaxTemp (averages s) = Fin (of_int (k + 1))) \<and>
     (\<forall>k. binary64_mean cs = Fin (of_int k + 1 / 2) \<longrightarrow>
          avgMinTemp (averages s) = Fin (of_int (k + 1))) \<and>
     (\<forall>k. js_mul (binary64_sum ps) (Fin 10) = Fin (of_int k + 1 / 2) \<longrightarrow>
          totalPrecipitation (averages s) = js_div (Fin (of_int (k + 1))) (Fin 10))"
proof -
  have half: "round_ties_up (of_int k + 1 / 2) = k + 1" for k
  proof -
    have "\<lfloor>of_int k + 1 / 2 :: rat\<rfloor> = k" by (intro floor_unique) simp_all
    then show ?thesis by (simp add: round_ties_up_def)
  qed
  obtain s where s: "analyzeWeatherHistory h = Some s"
    using analyze_Some [OF assms(1)] by blast
  have f: "hottestDay (extremes s) = Math_round (Fin (Max (set hs)))"
    "coldestDay (extremes s) = Math_round (Fin (Min (set cs)))"
    "wettestDay (extremes s) = js_div (Math_round (js_mul (Fin (Max (set ps))) (Fin 10))) (Fin 10)"
    "avgMaxTemp (averages s) = Math_round (binary64_mean hs)"
    "avgMinTemp (averages s) = Math_round (binary64_mean cs)"
    "totalPrecipitation (averages s) =
       js_div (Math_round (js_mul (binary64_sum ps) (Fin 10))) (Fin 10)"
    using s assms
    by (auto simp: analyzeWeatherHistory_def Let_def Math_max_Fin Math_min_Fin
        reduce_sum_binary64 binary64_mean_def)
  show ?thesis
    by (rule exI [of _ s]) (auto simp: s f half)
qed

theorem rounding_half_up_witness:
  "(let d = \<lparr>time = [''2024-01-01''], weather_code = [0],
             temperature_2m_max = map Fin [- 5 / 2],
             temperature_2m_min = map Fin [1 / 2],
             precipitation_sum = map Fin [1 / 4]\<rparr>
    in temperature_2m_max d \<noteq> [] \<and> temperature_2m_min d \<noteq> [] \<and>
       precipitation_sum d \<noteq> [] \<and>
       Max (set [- 5 / 2 :: rat]) = of_int (- 3) + 1 / 2 \<and>
       Min (set [1 / 2 :: rat]) = of_int 0 + 1 / 2 \<and>
       js_mul (Fin (Max (set [1 / 4]))) (Fin 10) = Fin (of_int 2 + 1 / 2) \<and>
       binary64_mean [- 5 / 2] = Fin (of_int (- 3) + 1 / 2) \<and>
       binary64_mean [1 / 2] = Fin (of_int 0 + 1 / 2) \<and>
       js_mul (binary64_sum [1 / 4]) (Fin 10) = Fin (of_int 2 + 1 / 2) \<and>
       (\<exists>s. analyzeWeatherHistory \<lparr>daily = Some d\<rparr> = Some s \<and>
          hottestDay (extremes s) = Fin (- 2) \<and>
          coldestDay (extremes s) = Fin 1 \<and>
          wettestDay (extremes s) = js_div (Fin 3) (Fin 10) \<and>
          avgMaxTemp (averages s) = Fin (- 2) \<and>
          avgMinTemp (averages s) = Fin 1 \<and>
          totalPrecipitation (averages s) = js_div (Fin 3) (Fin 10)))"
proof -
  let ?d = "\<lparr>time = [''2024-01-01''], weather_code = [0],
             temperature_2m_max = map Fin [- 5 / 2],
             temperature_2m_min = map Fin [1 / 2],
             precipitation_sum = map Fin [1 / 4]\<rparr>"
  have p: "Max (set [- 5 / 2 :: rat]) = of_int (- 3) + 1 / 2"
    "Min (set [1 / 2 :: rat]) = of_int 0 + 1 / 2"
    "js_mul (Fin (Max (set [1 / 4]))) (Fin 10) = Fin (of_int 2 + 1 / 2)"
    "binary64_mean [- 5 / 2] = Fin (of_int (- 3) + 1 / 2)"
    "binary64_mean [1 / 2] = Fin (of_int 0 + 1 / 2)"
    "js_mul (binary64_sum [1 / 4]) (Fin 10) = Fin (of_int 2 + 1 / 2)"
    by (simp_all add: binary64_mean_def binary64_sum_def fl64_binades fl64_evals)
  from rounding_half_up [of "\<lparr>daily = Some ?d\<rparr>" ?d "[- 5 / 2]" "[1 / 2]" "[1 / 4]"]
  obtain s where s: "analyzeWeatherHistory \<lparr>daily = Some ?d\<rparr> = Some s"
    and r: "\<forall>k. Max (set [- 5 / 2 :: rat]) = of_int k + 1 / 2 \<longrightarrow>
              hottestDay (extremes s) = Fin (of_int (k + 1))"
      "\<forall>k. Min (set [1 / 2 :: rat]) = of_int k + 1 / 2 \<longrightarrow>
              coldestDay (extremes s) = Fin (of_int (k + 1))"
      "\<forall>k. js_mul (Fin (Max (set [1 / 4]))) (Fin 10) = Fin (of_int k + 1 / 2) \<longrightarrow>
              wettestDay (extremes s) = js_div (Fin (of_int (k + 1))) (Fin 10)"
      "\<forall>k. binary64_mean [- 5 / 2] = Fin (of_int k + 1 / 2) \<longrightarrow>
              avgMaxTemp (averages s) = Fin (of_int (k + 1))"
      "\<forall>k. binary64_mean [1 / 2] = Fin (of_int k + 1 / 2) \<longrightarrow>
              avgMinTemp (averages s) = Fin (of_int (k + 1))"
      "\<forall>k. js_mul (binary64_sum [1 / 4]) (Fin 10) = Fin (of_int k + 1 / 2) \<longrightarrow>
              totalPrecipitation (averages s) = js_div (Fin (of_int (k + 1))) (Fin 10)"
    by auto
  have "hottestDay (extremes s) = Fin (- 2)" using r(1) [rule_format, OF p(1)] by simp
  moreover have "coldestDay (extremes s) = Fin 1" using r(2) [rule_format, OF p(2)] by simp
  moreover have "wettestDay (extremes s) = js_div (Fin 3) (Fin 10)"
    using r(3) [rule_format, OF p(3)] by simp
  moreover have "avgMaxTemp (averages s) = Fin (- 2)" using r(4) [rule_format, OF p(4)] by simp
  moreover have "avgMinTemp (averages s) = Fin 1" using r(5) [rule_format, OF p(5)] by simp
  moreover have "totalPrecipitation (averages s) = js_div (Fin 3) (Fin 10)"
    using r(6) [rule_format, OF p(6)] by simp
  ultimately show ?thesis using s p by (simp add: Let_def)
qed

text \<open>
  C8 as stated fails on negative temperatures: a highest temperature of -2.5 is rounded
  to -2 and a lowest temperature of -3.5 to -3, towards zero, where rounding half away
  from zero gives -3 and -4.
\<close>

theorem negative_half_counterexample:
  "map_option (hottestDay \<circ> extremes)
     (analyzeWeatherHistory
        \<lparr>daily = Some \<lparr>time = [''2024-01-01''], weather_code = [0],
                       temperature_2m_max = [Fin (- 5 / 2)],
                       temperature_2m_min = [Fin (- 7 / 2)],
                       precipitation_sum = [Fin 0]\<rparr>\<rparr>)
     = Some (Fin (- 2))
   \<and> round_half_away_from_zero (- 5 / 2) = - 3
   \<and> map_option (coldestDay \<circ> extremes)
     (analyzeWeatherHistory
        \<lparr>daily = Some \<lparr>time = [''2024-01-01''], weather_code = [0],
                       temperature_2m_max = [Fin (- 5 / 2)],
                       temperature_2m_min = [Fin (- 7 / 2)],
                       precipitation_sum = [Fin 0]\<rparr>\<rparr>)
     = Some (Fin (- 3))
   \<and> round_half_away_from_zero (- 7 / 2) = - 4"
  by (simp add: analyzeWeatherHistory_def Let_def Math_max_def Math_min_def
      max_step_def min_step_def round_half_away_from_zero_def fl64_evals)

end
